theory Spec2Isabelle
  imports Complex_Main "HOL-Library.Word"
begin

section \<open>Numerical integration in one dimension\<close>

text \<open>
  A shallow embedding of the code cells of \<^verbatim>\<open>Python_and_Numerical_Integration.ipynb\<close>.

  Conventions of the embedding:
  \<^item> Python floats are the reals: every statement below is about exact arithmetic, rounding
    and overflow of floats are not modelled.
  \<^item> The subdivision count \<open>n\<close> is a Python int, an \<open>int\<close> here.
  \<^item> The integrand is a pure function from floats to Python numbers, \<open>real \<Rightarrow> pyval\<close>: at each
    point it returns a float or an int. The ints it returns are taken to fit the 64-bit integer
    type numpy gives them (an int outside that range makes numpy choose yet another array
    type, which is outside this embedding).
  \<^item> Every exception an integration routine can raise on such inputs is a value: the
    routines return \<open>error + real\<close>, with \<open>Inl\<close> for the exception.
\<close>

subsection \<open>Python and numpy primitives the notebook calls\<close>

datatype error = ZeroDivisionError | ValueError | OverflowError

text \<open>
  What the integrand returns at a point: a Python int (within the \<^verbatim>\<open>int64\<close> range) or a float.
  The same type holds a numpy scalar, \<^verbatim>\<open>np.int64\<close> or \<^verbatim>\<open>np.float64\<close>.
\<close>

datatype pyval = PyInt "64 word" | PyFloat real

text \<open>
  A one-dimensional numpy array of the two element types that occur.
\<close>

datatype ndarray = Int64Array "64 word list" | Float64Array "real list"

text \<open>
  An integrand that returns a float at every point, as the notebook's own integrands
  \<^verbatim>\<open>dF_dx\<close> and \<^verbatim>\<open>nor\<close> do.
\<close>

definition float_valued :: "(real \<Rightarrow> real) \<Rightarrow> real \<Rightarrow> pyval" where
  "float_valued f x = PyFloat (f x)"

fun is_float :: "pyval \<Rightarrow> bool" where
  "is_float (PyFloat x) = True"
| "is_float (PyInt w) = False"

text \<open>
  The value of a number as a float: what \<^verbatim>\<open>float(v)\<close>, a cast to \<^verbatim>\<open>float64\<close> or a
  multiplication by a float makes of it.
\<close>

fun to_float :: "pyval \<Rightarrow> real" where
  "to_float (PyInt w) = real_of_int (sint w)"
| "to_float (PyFloat x) = x"

text \<open>
  The cast of one output to \<^verbatim>\<open>int64\<close>: an int is kept; a float is truncated towards zero
  (\<^verbatim>\<open>int(x)\<close>), and raises \<^verbatim>\<open>OverflowError\<close> when the truncated value does not fit.
\<close>

definition trunc_int :: "real \<Rightarrow> int" where
  "trunc_int x = (if 0 \<le> x then \<lfloor>x\<rfloor> else \<lceil>x\<rceil>)"

definition to_int64 :: "pyval \<Rightarrow> error + 64 word" where
  "to_int64 v =
     (case v of
        PyInt w \<Rightarrow> Inr w
      | PyFloat x \<Rightarrow>
          (let k = trunc_int x in
           if - (2 ^ 63) \<le> k \<and> k < 2 ^ 63 then Inr (word_of_int k) else Inl OverflowError))"

fun cast_int64 :: "pyval list \<Rightarrow> error + 64 word list" where
  "cast_int64 [] = Inr []"
| "cast_int64 (v # vs) =
     (case to_int64 v of
        Inl e \<Rightarrow> Inl e
      | Inr w \<Rightarrow> (case cast_int64 vs of Inl e \<Rightarrow> Inl e | Inr ws \<Rightarrow> Inr (w # ws)))"

text \<open>
  Division of two Python floats, \<^verbatim>\<open>x / y\<close>: raises \<^verbatim>\<open>ZeroDivisionError\<close> when the divisor
  is zero.
\<close>

definition float_div :: "real \<Rightarrow> real \<Rightarrow> error + real" where
  "float_div x y = (if y = 0 then Inl ZeroDivisionError else Inr (x / y))"

text \<open>
  \<^verbatim>\<open>range(start, stop, step)\<close> for a positive step (the notebook uses the steps 1 and 2): the
  values \<open>start + k * step\<close> for \<open>0 \<le> k < len\<close>, where \<open>len\<close> is
  \<open>(stop - start + step - 1) div step\<close> when that is positive, and 0 otherwise.
\<close>

definition py_range :: "int \<Rightarrow> int \<Rightarrow> int \<Rightarrow> int list" where
  "py_range start stop step =
     map (\<lambda>k. start + k * step) [0 .. (stop - start + step - 1) div step - 1]"

text \<open>
  Addition of two numpy scalars: two \<^verbatim>\<open>int64\<close> add in 64 bits and wrap around; as soon as
  one operand is a float the sum is a float.
\<close>

fun py_add :: "pyval \<Rightarrow> pyval \<Rightarrow> pyval" where
  "py_add (PyInt u) (PyInt v) = PyInt (u + v)"
| "py_add u v = PyFloat (to_float u + to_float v)"

text \<open>
  The builtin \<^verbatim>\<open>sum\<close> over an array: a left-to-right accumulation of the elements (numpy
  scalars of the array's type) that starts from the int 0.
\<close>

fun items :: "ndarray \<Rightarrow> pyval list" where
  "items (Int64Array ws) = map PyInt ws"
| "items (Float64Array ys) = map PyFloat ys"

definition py_sum :: "ndarray \<Rightarrow> pyval" where
  "py_sum arr = foldl py_add (PyInt 0) (items arr)"

text \<open>
  \<^verbatim>\<open>np.vectorize(f)(xs)\<close> on a list of floats, with no \<^verbatim>\<open>otypes\<close> given (as everywhere in the
  notebook). On an input of size 0 numpy raises \<^verbatim>\<open>ValueError\<close> (cannot call `vectorize` on
  size 0 inputs unless `otypes` is set); older numpy releases fail at the same place with an
  \<^verbatim>\<open>IndexError\<close> from reading the first element, and both are the one error value
  \<open>ValueError\<close> here. Otherwise numpy takes the element type of the result from \<^verbatim>\<open>f\<close> of the
  first element, evaluates \<^verbatim>\<open>f\<close> on every element in order, and casts every output to that
  type: when the first output is a float the array is \<^verbatim>\<open>float64\<close> and an int output becomes
  the float of the same value; when the first output is an int the array is \<^verbatim>\<open>int64\<close> and a
  float output is truncated.

  On a scalar, \<^verbatim>\<open>np.vectorize(f)(a)\<close> is \<^verbatim>\<open>f(a)\<close> in its own type, written \<open>f a\<close> below.
\<close>

definition vectorize :: "(real \<Rightarrow> pyval) \<Rightarrow> real list \<Rightarrow> error + ndarray" where
  "vectorize f xs =
     (case xs of
        [] \<Rightarrow> Inl ValueError
      | x # _ \<Rightarrow>
          (case f x of
             PyFloat _ \<Rightarrow> Inr (Float64Array (map (\<lambda>x. to_float (f x)) xs))
           | PyInt _ \<Rightarrow>
               (case cast_int64 (map f xs) of
                  Inl e \<Rightarrow> Inl e
                | Inr ws \<Rightarrow> Inr (Int64Array ws))))"

subsection \<open>The quadrature rules\<close>

text \<open>
  \<^verbatim>\<open>
  def Integral_Riemann(f, a, b,n):
      enne  = float(n)
      h     = (float(b)-float(a))/enne
      xvals = [a + i*h for i in range(1, n + 1)]
      f     = np.vectorize(f)
      yvals = f(xvals)
      return sum(yvals)*h
  \<close>
\<close>

definition Integral_Riemann :: "(real \<Rightarrow> pyval) \<Rightarrow> real \<Rightarrow> real \<Rightarrow> int \<Rightarrow> error + real" where
  "Integral_Riemann f a b n =
     (let enne = real_of_int n in
      case float_div (b - a) enne of
        Inl e \<Rightarrow> Inl e
      | Inr h \<Rightarrow>
          (let xvals = map (\<lambda>i. a + real_of_int i * h) (py_range 1 (n + 1) 1) in
           case vectorize f xvals of
             Inl e \<Rightarrow> Inl e
           | Inr yvals \<Rightarrow> Inr (to_float (py_sum yvals) * h)))"

text \<open>
  \<^verbatim>\<open>
  def Integral_Trapezoid1(f, a,b,n):
      enne  = float(n)
      h     = (float(b)-float(a))/enne
      xvals = [a + i*h for i in range(1, n)]
      f     = np.vectorize(f)
      yvals = f(xvals)
      return (sum(yvals) + 0.5*(f(a) + f(b)))*h
  \<close>
\<close>

definition Integral_Trapezoid1 :: "(real \<Rightarrow> pyval) \<Rightarrow> real \<Rightarrow> real \<Rightarrow> int \<Rightarrow> error + real" where
  "Integral_Trapezoid1 f a b n =
     (let enne = real_of_int n in
      case float_div (b - a) enne of
        Inl e \<Rightarrow> Inl e
      | Inr h \<Rightarrow>
          (let xvals = map (\<lambda>i. a + real_of_int i * h) (py_range 1 n 1) in
           case vectorize f xvals of
             Inl e \<Rightarrow> Inl e
           | Inr yvals \<Rightarrow> Inr ((to_float (py_sum yvals) + 0.5 * to_float (py_add (f a) (f b))) * h)))"

text \<open>
  \<^verbatim>\<open>
  def Integral_Trapezoid2(f, a,b,n):
      enne   = float(n)
      h      = (float(b)-float(a))/enne
      xvals1 = [a + i*h for i in range(0, n)]
      xvals2 = [a + i*h for i in range(1, n + 1)]
      f      = np.vectorize(f)
      yvals1 = f(xvals1)
      yvals2 = f(xvals2)
      return (sum(yvals1) + sum(yvals2))*.5*h
  \<close>
\<close>

definition Integral_Trapezoid2 :: "(real \<Rightarrow> pyval) \<Rightarrow> real \<Rightarrow> real \<Rightarrow> int \<Rightarrow> error + real" where
  "Integral_Trapezoid2 f a b n =
     (let enne = real_of_int n in
      case float_div (b - a) enne of
        Inl e \<Rightarrow> Inl e
      | Inr h \<Rightarrow>
          (let xvals1 = map (\<lambda>i. a + real_of_int i * h) (py_range 0 n 1);
               xvals2 = map (\<lambda>i. a + real_of_int i * h) (py_range 1 (n + 1) 1) in
           case vectorize f xvals1 of
             Inl e \<Rightarrow> Inl e
           | Inr yvals1 \<Rightarrow>
               (case vectorize f xvals2 of
                  Inl e \<Rightarrow> Inl e
                | Inr yvals2 \<Rightarrow> Inr (to_float (py_add (py_sum yvals1) (py_sum yvals2)) * 0.5 * h))))"

text \<open>
  \<^verbatim>\<open>
  def Integral_SimpsonRule(f, a,b,n):
      enne      = float(n)
      h         = (float(b)-float(a))/enne
      xvalsOdd  = [a + i*h for i in range(1, n    , 2)]
      xvalsEven = [a + i*h for i in range(2, n - 1, 2)]
      f         = np.vectorize(f)
      yvalsOdd  = f(xvalsOdd)
      yvalsEven = f(xvalsEven)
      return (4/3.0*sum(yvalsOdd) + 2/3.0*sum(yvalsEven) + 1/3.0*f(a) + 1/3.0*f(b))*h
  \<close>
\<close>

definition Integral_SimpsonRule :: "(real \<Rightarrow> pyval) \<Rightarrow> real \<Rightarrow> real \<Rightarrow> int \<Rightarrow> error + real" where
  "Integral_SimpsonRule f a b n =
     (let enne = real_of_int n in
      case float_div (b - a) enne of
        Inl e \<Rightarrow> Inl e
      | Inr h \<Rightarrow>
          (let xvalsOdd = map (\<lambda>i. a + real_of_int i * h) (py_range 1 n 2);
               xvalsEven = map (\<lambda>i. a + real_of_int i * h) (py_range 2 (n - 1) 2) in
           case vectorize f xvalsOdd of
             Inl e \<Rightarrow> Inl e
           | Inr yvalsOdd \<Rightarrow>
               (case vectorize f xvalsEven of
                  Inl e \<Rightarrow> Inl e
                | Inr yvalsEven \<Rightarrow>
                    Inr ((4 / 3 * to_float (py_sum yvalsOdd) + 2 / 3 * to_float (py_sum yvalsEven)
                          + 1 / 3 * to_float (f a) + 1 / 3 * to_float (f b)) * h))))"

subsection \<open>The numeric differentiator\<close>

text \<open>
  \<^verbatim>\<open>scipy.misc.derivative(func, x0, dx)\<close> with its defaults \<^verbatim>\<open>n=1, order=3\<close>: the weights are
  \<^verbatim>\<open>array([-1,0,1])/2.0\<close>, the loop adds \<^verbatim>\<open>weights[k]*func(x0+(k-1)*dx)\<close> for \<^verbatim>\<open>k = 0, 1, 2\<close>
  to \<^verbatim>\<open>val = 0.0\<close>, and the result is \<^verbatim>\<open>val / dx\<close>.
\<close>

definition derivative :: "(real \<Rightarrow> real) \<Rightarrow> real \<Rightarrow> real \<Rightarrow> real" where
  "derivative func x0 dx =
     foldl (\<lambda>val k. val + [- 1 / 2, 0, 1 / 2] ! k * func (x0 + (real k - 1) * dx)) 0 [0, 1, 2]
       / dx"

text \<open>
  \<^verbatim>\<open>
  def F_sin(x):
      return np.sin(x)

  def dF_dx(x):
      dFdx = lambda x: derivative(F_sin, x, dx= 0.0001)
      return dFdx(x)

  Vect_dF_dx   = np.vectorize(dF_dx)
  \<close>
\<close>

definition F_sin :: "real \<Rightarrow> real" where
  "F_sin x = sin x"

text \<open>
  \<open>dF_dx x\<close> is the float the cell returns; as an integrand it is \<open>float_valued dF_dx\<close>.
\<close>

definition dF_dx :: "real \<Rightarrow> real" where
  "dF_dx x = derivative F_sin x (1 / 10000)"

definition Vect_dF_dx :: "real list \<Rightarrow> error + ndarray" where
  "Vect_dF_dx xs = vectorize (float_valued dF_dx) xs"

section \<open>Facts about the primitives\<close>

lemma py_range_step1: "py_range i j 1 = [i .. j - 1]"
proof -
  have "map (\<lambda>k. i + k) [0 .. j - i - 1] = [i .. j - 1]"
    by (rule nth_equalityI) auto
  then show ?thesis
    by (simp add: py_range_def)
qed

lemma foldl_py_add_floats:
  "foldl py_add (PyFloat s) (map PyFloat ys) = PyFloat (s + sum_list ys)"
  by (induction ys arbitrary: s) (simp_all add: algebra_simps)

lemma py_sum_floats: "ys \<noteq> [] \<Longrightarrow> py_sum (Float64Array ys) = PyFloat (sum_list ys)"
  by (cases ys) (simp_all add: py_sum_def foldl_py_add_floats)

lemma foldl_py_add_ints:
  "foldl py_add (PyInt s) (map PyInt ws) = PyInt (s + sum_list ws)"
  by (induction ws arbitrary: s) (simp_all add: algebra_simps)

lemma py_sum_ints: "py_sum (Int64Array ws) = PyInt (sum_list ws)"
  by (simp add: py_sum_def foldl_py_add_ints)

lemma sum_list_map_upto: "sum_list (map g [i .. j]) = (\<Sum>k = i..j. (g k :: real))"
  by (simp add: sum_set_upto_conv_sum_list_int [symmetric])

lemma vectorize_float_first:
  "xs \<noteq> [] \<Longrightarrow> is_float (f (hd xs)) \<Longrightarrow>
     vectorize f xs = Inr (Float64Array (map (\<lambda>x. to_float (f x)) xs))"
  by (cases xs; cases "f (hd xs)") (simp_all add: vectorize_def)

lemma vectorize_float_valued:
  "xs \<noteq> [] \<Longrightarrow> vectorize (float_valued f) xs = Inr (Float64Array (map f xs))"
  by (cases xs) (simp_all add: vectorize_def float_valued_def)


lemma to_float_float_valued: "to_float (float_valued f x) = f x"
  by (simp add: float_valued_def)

lemma py_add_float_valued: "to_float (py_add (float_valued f x) (float_valued f y)) = f x + f y"
  by (simp add: float_valued_def)

lemma float_div_nonzero: "y \<noteq> 0 \<Longrightarrow> float_div x y = Inr (x / y)"
  by (simp add: float_div_def)

lemma py_range_odd: "py_range 1 n 2 = map (\<lambda>k. 1 + k * 2) [0 .. n div 2 - 1]"
  by (simp add: py_range_def)

lemma py_range_even: "py_range 2 (n - 1) 2 = map (\<lambda>k. 2 + k * 2) [0 .. n div 2 - 2]"
proof -
  have e: "(n - 1 - 2 + 2 - 1) div 2 - 1 = n div 2 - 2"
    by presburger
  show ?thesis
    by (simp only: py_range_def e)
qed

lemma sum_split_first:
  fixes g :: "int \<Rightarrow> real"
  assumes "i \<le> j"
  shows "(\<Sum>k = i..j. g k) = g i + (\<Sum>k = i + 1..j. g k)"
proof -
  have "{i..j} = insert i {i + 1..j}"
    using assms by auto
  then show ?thesis
    by simp
qed

lemma sum_split_last:
  fixes g :: "int \<Rightarrow> real"
  assumes "i \<le> j"
  shows "(\<Sum>k = i..j. g k) = (\<Sum>k = i..j - 1. g k) + g j"
proof -
  have "{i..j} = insert j {i..j - 1}"
    using assms by auto
  then show ?thesis
    by simp
qed

lemma odd_index_sum:
  fixes g :: "int \<Rightarrow> real"
  assumes "even n"
  shows "(\<Sum>k = 0..n div 2 - 1. g (1 + k * 2)) = sum g {i \<in> {1..n - 1}. odd i}"
proof (rule sum.reindex_bij_witness [where i = "\<lambda>i. (i - 1) div 2" and j = "\<lambda>k. 1 + k * 2"],
    goal_cases)
  case (1 k)
  show ?case by simp
next
  case (2 k)
  then have "0 \<le> k" "k \<le> n div 2 - 1" by simp_all
  with assms have "1 \<le> 1 + k * 2" "1 + k * 2 \<le> n - 1" by presburger+
  then show ?case by simp
next
  case (3 i)
  then have "odd i" by simp
  then show ?case by presburger
next
  case (4 i)
  then have "1 \<le> i" "i \<le> n - 1" "odd i" by simp_all
  with assms have "0 \<le> (i - 1) div 2" "(i - 1) div 2 \<le> n div 2 - 1" by presburger+
  then show ?case by simp
next
  case (5 k)
  show ?case ..
qed

lemma even_index_sum:
  fixes g :: "int \<Rightarrow> real"
  assumes "even n"
  shows "(\<Sum>k = 0..n div 2 - 2. g (2 + k * 2)) = sum g {i \<in> {2..n - 2}. even i}"
proof (rule sum.reindex_bij_witness [where i = "\<lambda>i. (i - 2) div 2" and j = "\<lambda>k. 2 + k * 2"],
    goal_cases)
  case (1 k)
  show ?case by simp
next
  case (2 k)
  then have "0 \<le> k" "k \<le> n div 2 - 2" by simp_all
  with assms have "2 \<le> 2 + k * 2" "2 + k * 2 \<le> n - 2" by presburger+
  then show ?case by simp
next
  case (3 i)
  then have "even i" by simp
  then show ?case by presburger
next
  case (4 i)
  then have "2 \<le> i" "i \<le> n - 2" "even i" by simp_all
  with assms have "0 \<le> (i - 2) div 2" "(i - 2) div 2 \<le> n div 2 - 2" by presburger+
  then show ?case by simp
next
  case (5 k)
  show ?case ..
qed

section \<open>The Riemann sum\<close>

lemma Integral_Riemann_float_first:
  assumes "1 \<le> n" and "is_float (f (a + (b - a) / real_of_int n))"
  shows "Integral_Riemann f a b n =
    Inr ((\<Sum>i = 1..n. to_float (f (a + real_of_int i * ((b - a) / real_of_int n))))
         * ((b - a) / real_of_int n))"
proof -
  let ?h = "(b - a) / real_of_int n"
  let ?xs = "map (\<lambda>i. a + real_of_int i * ?h) [1 .. n]"
  have up: "[1 .. n] = 1 # [2 .. n]"
    using assms(1) by (simp add: upto.simps)
  have ne: "?xs \<noteq> []" and first: "hd ?xs = a + ?h"
    by (simp_all add: up)
  have nz: "real_of_int n \<noteq> 0"
    using assms(1) by simp
  have v: "vectorize f ?xs = Inr (Float64Array (map (\<lambda>x. to_float (f x)) ?xs))"
    using assms(2) by (intro vectorize_float_first [OF ne]) (simp only: first)
  have s: "py_sum (Float64Array (map (\<lambda>x. to_float (f x)) ?xs))
         = PyFloat (\<Sum>i = 1..n. to_float (f (a + real_of_int i * ?h)))"
    using ne by (simp add: py_sum_floats comp_def sum_list_map_upto)
  have r: "py_range 1 (n + 1) 1 = [1 .. n]"
    by (simp add: py_range_step1)
  show ?thesis
    unfolding Integral_Riemann_def Let_def float_div_nonzero [OF nz] r
    by (simp only: sum.case v s to_float.simps)
qed

lemma Integral_Riemann_value:
  assumes "1 \<le> n"
  shows "Integral_Riemann (float_valued f) a b n =
    Inr ((\<Sum>i = 1..n. f (a + real_of_int i * ((b - a) / real_of_int n))) * ((b - a) / real_of_int n))"
  using Integral_Riemann_float_first [of n "float_valued f" a b, OF assms]
  by (simp add: float_valued_def)





section \<open>The trapezoidal rule\<close>

lemma Integral_Trapezoid1_value:
  assumes "2 \<le> n"
  shows "Integral_Trapezoid1 (float_valued f) a b n =
    Inr (((\<Sum>i = 1..n - 1. f (a + real_of_int i * ((b - a) / real_of_int n)))
          + 0.5 * (f a + f b)) * ((b - a) / real_of_int n))"
proof -
  have ne: "[1 .. n - 1] \<noteq> []"
    using assms by (simp add: upto.simps)
  have nz: "real_of_int n \<noteq> 0"
    using assms by simp
  show ?thesis
    using ne nz
    by (simp add: Integral_Trapezoid1_def float_div_nonzero py_range_step1 vectorize_float_valued
        py_sum_floats to_float_float_valued py_add_float_valued comp_def sum_list_map_upto)
qed

lemma Integral_Trapezoid2_value:
  assumes "1 \<le> n"
  shows "Integral_Trapezoid2 (float_valued f) a b n =
    Inr (((\<Sum>i = 0..n - 1. f (a + real_of_int i * ((b - a) / real_of_int n)))
          + (\<Sum>i = 1..n. f (a + real_of_int i * ((b - a) / real_of_int n))))
         * 0.5 * ((b - a) / real_of_int n))"
proof -
  have ne: "[0 .. n - 1] \<noteq> []" "[1 .. n] \<noteq> []"
    using assms by (simp_all add: upto.simps)
  have nz: "real_of_int n \<noteq> 0"
    using assms by simp
  show ?thesis
    using ne nz
    by (simp add: Integral_Trapezoid2_def float_div_nonzero py_range_step1 vectorize_float_valued
        py_sum_floats to_float_float_valued py_add_float_valued comp_def sum_list_map_upto)
qed

lemma trapezoid_weights: "(S + 0.5 * (p + q)) * h = h * (0.5 * p + 0.5 * q + (S::real))"
  by (simp add: algebra_simps)

lemma Integral_Trapezoid1_formula:
  assumes "2 \<le> n"
  shows "Integral_Trapezoid1 (float_valued f) a b n =
           Inr ((b - a) / real_of_int n
                * (0.5 * f a + 0.5 * f b
                   + (\<Sum>i = 1..n - 1. f (a + real_of_int i * ((b - a) / real_of_int n)))))"
  by (simp only: Integral_Trapezoid1_value [OF assms] trapezoid_weights)

lemma trapezoid_algebra: "(S + 0.5 * (p + q)) * h = ((p + S) + (S + q)) * 0.5 * (h::real)"
  by (simp add: algebra_simps)

lemma trapezoid_agree:
  assumes "2 \<le> n"
  shows "Integral_Trapezoid1 (float_valued f) a b n = Integral_Trapezoid2 (float_valued f) a b n"
proof -
  let ?g = "\<lambda>i. f (a + real_of_int i * ((b - a) / real_of_int n))"
  have n0: "n \<noteq> 0" and n1: "1 \<le> n" and le0: "(0::int) \<le> n - 1"
    using assms by simp_all
  have first: "(\<Sum>i = 0..n - 1. ?g i) = f a + (\<Sum>i = 1..n - 1. ?g i)"
    using sum_split_first [OF le0, of ?g] by simp
  have last: "(\<Sum>i = 1..n. ?g i) = (\<Sum>i = 1..n - 1. ?g i) + f b"
    using sum_split_last [OF n1, of ?g] n0 by simp
  define S where "S = (\<Sum>i = 1..n - 1. ?g i)"
  have "Integral_Trapezoid1 (float_valued f) a b n = Inr ((S + 0.5 * (f a + f b)) * ((b - a) / real_of_int n))"
    by (simp only: Integral_Trapezoid1_value [OF assms] S_def)
  also have "\<dots> = Inr (((f a + S) + (S + f b)) * 0.5 * ((b - a) / real_of_int n))"
    by (simp only: trapezoid_algebra)
  also have "\<dots> = Integral_Trapezoid2 (float_valued f) a b n"
    by (simp only: Integral_Trapezoid2_value [OF n1] first last S_def)
  finally show ?thesis .
qed

text \<open>
  Claim C2. For every \<open>n \<ge> 1\<close>, \<open>Integral_Trapezoid1 f a b n\<close> is to return
  \<open>Dx * (0.5 * f a + 0.5 * f b + (\<Sum>i = 1..n - 1. f (a + i * Dx)))\<close>, and for \<open>n = 1\<close>
  the value \<open>0.5 * (f a + f b) * (b - a)\<close>. The formula holds for every \<open>n \<ge> 2\<close> and every
  float-valued integrand (\<open>Integral_Trapezoid1_formula\<close>). At \<open>n = 1\<close> the list of interior
  abscissas \<^verbatim>\<open>range(1, 1)\<close> is empty and the vectorised call raises, whatever the integrand:
  no value is returned.
\<close>

theorem Integral_Trapezoid1_single_interval:
  "Integral_Trapezoid1 f a b 1 = Inl ValueError"
  by (simp add: Integral_Trapezoid1_def float_div_def py_range_def vectorize_def)

text \<open>
  Claim C4. The two formulations of the trapezoidal rule are to agree for every \<open>n \<ge> 1\<close>.
  They agree for every \<open>n \<ge> 2\<close> on a float-valued integrand (\<open>trapezoid_agree\<close>). At \<open>n = 1\<close>
  the first one raises and the second one returns the area of the single trapezoid.
\<close>

theorem Trapezoid_formulations_single_interval:
  "Integral_Trapezoid1 (float_valued f) a b 1 = Inl ValueError
   \<and> Integral_Trapezoid2 (float_valued f) a b 1 = Inr (0.5 * (f a + f b) * (b - a))"
  by (simp add: Integral_Trapezoid1_def Integral_Trapezoid2_def float_div_def py_range_def
      vectorize_def float_valued_def py_sum_def upto.simps algebra_simps)

section \<open>Simpson's rule\<close>

lemma Integral_SimpsonRule_value:
  assumes "4 \<le> n \<or> (odd n \<and> 5 \<le> n)"
  shows "Integral_SimpsonRule (float_valued f) a b n =
    Inr ((4 / 3 * (\<Sum>k = 0..n div 2 - 1. f (a + real_of_int (1 + k * 2) * ((b - a) / real_of_int n)))
          + 2 / 3 * (\<Sum>k = 0..n div 2 - 2. f (a + real_of_int (2 + k * 2) * ((b - a) / real_of_int n)))
          + 1 / 3 * f a + 1 / 3 * f b) * ((b - a) / real_of_int n))"
proof -
  have "0 \<le> n div 2 - 2"
    using assms by presburger
  then have ne: "[0 .. n div 2 - 1] \<noteq> []" "[0 .. n div 2 - 2] \<noteq> []"
    by (simp_all add: upto.simps)
  have nz: "real_of_int n \<noteq> 0"
    using assms by auto
  show ?thesis
    using ne nz
    by (simp add: Integral_SimpsonRule_def float_div_nonzero py_range_odd py_range_even
        vectorize_float_valued py_sum_floats to_float_float_valued py_add_float_valued comp_def sum_list_map_upto)
qed

lemma simpson_weights:
  "(4 / 3 * So + 2 / 3 * Se + 1 / 3 * p + 1 / 3 * q) * h = h / 3 * (p + q + 4 * So + 2 * (Se::real))"
  by (simp add: algebra_simps)

lemma Integral_SimpsonRule_formula:
  assumes "4 \<le> n" and "even n"
  shows "Integral_SimpsonRule (float_valued f) a b n =
           Inr ((b - a) / real_of_int n / 3
                * (f a + f b
                   + 4 * (\<Sum>i \<in> {i \<in> {1..n - 1}. odd i}.
                            f (a + real_of_int i * ((b - a) / real_of_int n)))
                   + 2 * (\<Sum>i \<in> {i \<in> {2..n - 2}. even i}.
                            f (a + real_of_int i * ((b - a) / real_of_int n)))))"
proof -
  let ?g = "\<lambda>i. f (a + real_of_int i * ((b - a) / real_of_int n))"
  have v: "4 \<le> n \<or> odd n \<and> 5 \<le> n"
    using assms by simp
  show ?thesis
    by (simp only: Integral_SimpsonRule_value [OF v] odd_index_sum [OF assms(2), of ?g]
        even_index_sum [OF assms(2), of ?g] simpson_weights)
qed

lemma vectorize_singleton: "\<exists>arr. vectorize f [x] = Inr arr"
  by (cases "f x") (simp_all add: vectorize_def to_int64_def)

text \<open>
  Claim C3. For every even \<open>n \<ge> 2\<close>, \<open>Integral_SimpsonRule f a b n\<close> is to return
  \<open>Dx / 3 * (f a + f b + 4 * (sum over the odd abscissas) + 2 * (sum over the even interior
  abscissas))\<close>. The formula holds for every even \<open>n \<ge> 4\<close> and every float-valued integrand
  (\<open>Integral_SimpsonRule_formula\<close>). At \<open>n = 2\<close> the list of even interior abscissas
  \<^verbatim>\<open>range(2, 1, 2)\<close> is empty and the vectorised call raises, whatever the integrand: no value
  is returned.
\<close>

theorem Integral_SimpsonRule_two_intervals:
  "Integral_SimpsonRule f a b 2 = Inl ValueError"
proof -
  have r: "py_range 1 2 2 = [1]" "py_range 2 (2 - 1) 2 = []"
    by (simp_all add: py_range_def upto.simps)
  obtain arr where "vectorize f [a + real_of_int 1 * ((b - a) / real_of_int 2)] = Inr arr"
    using vectorize_singleton by blast
  moreover have "vectorize f [] = Inl ValueError"
    by (simp add: vectorize_def)
  moreover have "float_div (b - a) (real_of_int 2) = Inr ((b - a) / real_of_int 2)"
    by (simp add: float_div_def)
  ultimately show ?thesis
    unfolding Integral_SimpsonRule_def Let_def r by (simp only: sum.case list.map)
qed

section \<open>Riemann sum against trapezoidal rule\<close>

lemma riemann_trapezoid_gap: "(S + q) * h - (S + 0.5 * (p + q)) * h = h / 2 * (q - (p::real))"
  by (simp add: algebra_simps)

lemma Riemann_minus_Trapezoid1:
  assumes "2 \<le> n"
  shows "\<exists>r t. Integral_Riemann (float_valued f) a b n = Inr r \<and> Integral_Trapezoid1 (float_valued f) a b n = Inr t
               \<and> r - t = (b - a) / real_of_int n / 2 * (f b - f a)"
proof -
  let ?h = "(b - a) / real_of_int n"
  let ?g = "\<lambda>i. f (a + real_of_int i * ?h)"
  have n0: "n \<noteq> 0" and n1: "1 \<le> n"
    using assms by simp_all
  define S where "S = (\<Sum>i = 1..n - 1. ?g i)"
  have last: "(\<Sum>i = 1..n. ?g i) = S + f b"
    using sum_split_last [OF n1, of ?g] n0 by (simp add: S_def)
  have r: "Integral_Riemann (float_valued f) a b n = Inr ((S + f b) * ?h)"
    by (simp only: Integral_Riemann_value [OF n1] last)
  have t: "Integral_Trapezoid1 (float_valued f) a b n = Inr ((S + 0.5 * (f a + f b)) * ?h)"
    by (simp only: Integral_Trapezoid1_value [OF assms] S_def)
  have "(S + f b) * ?h - (S + 0.5 * (f a + f b)) * ?h = ?h / 2 * (f b - f a)"
    by (rule riemann_trapezoid_gap)
  with r t show ?thesis
    by blast
qed

text \<open>
  Claim C10. For every \<open>n \<ge> 1\<close> the Riemann and trapezoid results are to differ by the boundary
  correction, \<open>Integral_Riemann f a b n - Integral_Trapezoid1 f a b n = Dx / 2 * (f b - f a)\<close>.
  This holds for every \<open>n \<ge> 2\<close> on a float-valued integrand (\<open>Riemann_minus_Trapezoid1\<close>). At
  \<open>n = 1\<close> the Riemann sum returns \<open>f b * (b - a)\<close> while \<open>Integral_Trapezoid1\<close> raises, so
  there is no difference to form.
\<close>

theorem Riemann_Trapezoid1_single_interval:
  "Integral_Riemann (float_valued f) a b 1 = Inr (f b * (b - a))
   \<and> Integral_Trapezoid1 (float_valued f) a b 1 = Inl ValueError"
  by (simp add: Integral_Riemann_def Integral_Trapezoid1_def float_div_def py_range_def
      vectorize_def float_valued_def py_sum_def upto.simps)

section \<open>Constant integrands\<close>

lemma Integral_Riemann_constant:
  assumes "1 \<le> n"
  shows "Integral_Riemann (float_valued (\<lambda>x. c)) a b n = Inr (c * (b - a))"
  using assms by (simp add: Integral_Riemann_value)

lemma Integral_Trapezoid2_constant:
  assumes "1 \<le> n"
  shows "Integral_Trapezoid2 (float_valued (\<lambda>x. c)) a b n = Inr (c * (b - a))"
  using assms by (simp add: Integral_Trapezoid2_value)

lemma Integral_Trapezoid1_constant:
  assumes "2 \<le> n"
  shows "Integral_Trapezoid1 (float_valued (\<lambda>x. c)) a b n = Inr (c * (b - a))"
  using assms by (simp add: Integral_Trapezoid1_value field_simps)

lemma Integral_SimpsonRule_constant:
  assumes "4 \<le> n" and "even n"
  shows "Integral_SimpsonRule (float_valued (\<lambda>x. c)) a b n = Inr (c * (b - a))"
proof -
  obtain m where m: "n = 2 * m"
    using assms(2) by (elim evenE)
  have m2: "2 \<le> m"
    using assms(1) m by simp
  then have v: "4 \<le> 2 * m \<or> odd (2 * m) \<and> 5 \<le> 2 * m"
    by simp
  have "Integral_SimpsonRule (float_valued (\<lambda>x. c)) a b (2 * m) = Inr (c * (b - a))"
    unfolding Integral_SimpsonRule_value [OF v] using m2 by (simp add: field_simps)
  then show ?thesis
    by (simp only: m)
qed

text \<open>
  An int constant makes every sample array an \<^verbatim>\<open>int64\<close> array, whose sums are taken in 64
  bits. As long as twice the number of subdivisions times the constant stays within the
  \<^verbatim>\<open>int64\<close> range no sum wraps around, and the rules are exact as on a float constant.
\<close>

lemma cast_int64_ints: "cast_int64 (map (\<lambda>x. PyInt w) xs) = Inr (map (\<lambda>x. w) xs)"
  by (induction xs) (simp_all add: to_int64_def)

lemma vectorize_int_constant:
  "xs \<noteq> [] \<Longrightarrow> vectorize (\<lambda>x. PyInt w) xs = Inr (Int64Array (replicate (length xs) w))"
  using cast_int64_ints [of w xs] by (cases xs) (simp_all add: vectorize_def map_replicate_const)

lemma py_sum_replicate: "py_sum (Int64Array (replicate k w)) = PyInt (of_nat k * w)"
  by (simp add: py_sum_ints sum_list_replicate)

lemma sint_of_nat_mult:
  fixes w :: "64 word"
  assumes "int k * \<bar>sint w\<bar> < 2 ^ 63"
  shows "sint (of_nat k * w) = int k * sint w"
proof -
  have "\<bar>int k * sint w\<bar> < 2 ^ 63"
    using assms by (simp add: abs_mult)
  then have r: "- (2 ^ 63) \<le> int k * sint w" "int k * sint w < 2 ^ 63"
    by linarith+
  have "of_nat k * w = (word_of_int (int k * sint w) :: 64 word)"
    by simp
  then have "sint (of_nat k * w) = signed_take_bit 63 (int k * sint w)"
    by (simp only: sint_sbintrunc') simp
  also have "\<dots> = int k * sint w"
    using r by (rule signed_take_bit_int_eq_self)
  finally show ?thesis .
qed

lemma sint_scaled:
  fixes w :: "64 word"
  assumes "0 \<le> k" and "k \<le> 2 * n" and "2 * n * \<bar>sint w\<bar> < 2 ^ 63"
  shows "sint (of_nat (nat k) * w) = k * sint w"
proof -
  have "k * \<bar>sint w\<bar> \<le> (2 * n) * \<bar>sint w\<bar>"
    using assms(2) by (intro mult_right_mono) simp_all
  then have "int (nat k) * \<bar>sint w\<bar> < 2 ^ 63"
    using assms(1,3) by simp
  from sint_of_nat_mult [OF this] show ?thesis
    using assms(1) by simp
qed

lemma Integral_Riemann_int_constant:
  assumes "1 \<le> n" and "2 * n * \<bar>sint w\<bar> < 2 ^ 63"
  shows "Integral_Riemann (\<lambda>x. PyInt w) a b n = Inr (real_of_int (sint w) * (b - a))"
proof -
  have ne: "[1 .. n] \<noteq> []"
    using assms(1) by (simp add: upto.simps)
  have nz: "real_of_int n \<noteq> 0"
    using assms(1) by simp
  have s: "sint (of_nat (nat n) * w) = n * sint w"
    using assms by (intro sint_scaled [where n = n]) simp_all
  have "Integral_Riemann (\<lambda>x. PyInt w) a b n
      = Inr (real_of_int (sint (of_nat (nat n) * w)) * ((b - a) / real_of_int n))"
    using ne nz
    by (simp add: Integral_Riemann_def float_div_nonzero py_range_step1 vectorize_int_constant
        py_sum_replicate)
  also have "\<dots> = Inr (real_of_int (sint w) * (b - a))"
    using nz by (simp add: s)
  finally show ?thesis .
qed

lemma Integral_Trapezoid2_int_constant:
  assumes "1 \<le> n" and "2 * n * \<bar>sint w\<bar> < 2 ^ 63"
  shows "Integral_Trapezoid2 (\<lambda>x. PyInt w) a b n = Inr (real_of_int (sint w) * (b - a))"
proof -
  have ne: "[0 .. n - 1] \<noteq> []" "[1 .. n] \<noteq> []"
    using assms(1) by (simp_all add: upto.simps)
  have nz: "real_of_int n \<noteq> 0"
    using assms(1) by simp
  have "of_nat (nat n) * w + of_nat (nat n) * w = of_nat (nat (2 * n)) * w"
    using assms(1) by (simp add: nat_mult_distrib algebra_simps)
  moreover have "sint (of_nat (nat (2 * n)) * w) = (2 * n) * sint w"
    using assms by (intro sint_scaled [where n = n]) simp_all
  ultimately have s: "sint (of_nat (nat n) * w + of_nat (nat n) * w) = 2 * n * sint w"
    by simp
  have "Integral_Trapezoid2 (\<lambda>x. PyInt w) a b n
      = Inr (real_of_int (sint (of_nat (nat n) * w + of_nat (nat n) * w)) * 0.5
             * ((b - a) / real_of_int n))"
    using ne nz
    by (simp add: Integral_Trapezoid2_def float_div_nonzero py_range_step1 vectorize_int_constant
        py_sum_replicate)
  also have "\<dots> = Inr (real_of_int (2 * n * sint w) * 0.5 * ((b - a) / real_of_int n))"
    by (simp only: s)
  also have "\<dots> = Inr (real_of_int (sint w) * (b - a))"
    using nz by simp
  finally show ?thesis .
qed

lemma Integral_Trapezoid1_int_constant:
  assumes "2 \<le> n" and "2 * n * \<bar>sint w\<bar> < 2 ^ 63"
  shows "Integral_Trapezoid1 (\<lambda>x. PyInt w) a b n = Inr (real_of_int (sint w) * (b - a))"
proof -
  have ne: "[1 .. n - 1] \<noteq> []"
    using assms(1) by (simp add: upto.simps)
  have nz: "real_of_int n \<noteq> 0"
    using assms(1) by simp
  have s: "sint (of_nat (nat (n - 1)) * w) = (n - 1) * sint w"
    using assms by (intro sint_scaled [where n = n]) simp_all
  have "w + w = of_nat (nat 2) * w"
    by simp
  moreover have "sint (of_nat (nat 2) * w) = 2 * sint w"
    using assms by (intro sint_scaled [where n = n]) simp_all
  ultimately have s2: "sint (w + w) = 2 * sint w"
    by simp
  have "Integral_Trapezoid1 (\<lambda>x. PyInt w) a b n
      = Inr ((real_of_int (sint (of_nat (nat (n - 1)) * w)) + 0.5 * real_of_int (sint (w + w)))
             * ((b - a) / real_of_int n))"
    using ne nz
    by (simp add: Integral_Trapezoid1_def float_div_nonzero py_range_step1 vectorize_int_constant
        py_sum_replicate)
  also have "\<dots> = Inr ((real_of_int ((n - 1) * sint w) + 0.5 * real_of_int (2 * sint w))
                         * ((b - a) / real_of_int n))"
    by (simp only: s s2)
  also have "\<dots> = Inr (real_of_int (sint w) * (b - a))"
    using nz by (simp add: field_simps)
  finally show ?thesis .
qed

lemma Integral_SimpsonRule_int_constant:
  assumes "4 \<le> n" and "even n" and "2 * n * \<bar>sint w\<bar> < 2 ^ 63"
  shows "Integral_SimpsonRule (\<lambda>x. PyInt w) a b n = Inr (real_of_int (sint w) * (b - a))"
proof -
  obtain m where m: "n = 2 * m"
    using assms(2) by (elim evenE)
  have m2: "2 \<le> m"
    using assms(1) m by simp
  have ne: "[0 .. n div 2 - 1] \<noteq> []" "[0 .. n div 2 - 2] \<noteq> []"
    using m m2 by (simp_all add: upto.simps)
  have nz: "real_of_int n \<noteq> 0"
    using assms(1) by simp
  have so: "sint (of_nat (nat (n div 2)) * w) = (n div 2) * sint w"
    using assms m m2 by (intro sint_scaled [where n = n]) simp_all
  have se: "sint (of_nat (nat (n div 2 - 1)) * w) = (n div 2 - 1) * sint w"
    using assms m m2 by (intro sint_scaled [where n = n]) simp_all
  have "Integral_SimpsonRule (\<lambda>x. PyInt w) a b n
      = Inr ((4 / 3 * real_of_int (sint (of_nat (nat (n div 2)) * w))
              + 2 / 3 * real_of_int (sint (of_nat (nat (n div 2 - 1)) * w))
              + 1 / 3 * real_of_int (sint w) + 1 / 3 * real_of_int (sint w))
             * ((b - a) / real_of_int n))"
    using ne nz
    by (simp add: Integral_SimpsonRule_def float_div_nonzero py_range_odd py_range_even
        vectorize_int_constant py_sum_replicate)
  also have "\<dots> = Inr ((4 / 3 * real_of_int (n div 2 * sint w)
              + 2 / 3 * real_of_int ((n div 2 - 1) * sint w)
              + 1 / 3 * real_of_int (sint w) + 1 / 3 * real_of_int (sint w))
             * ((b - a) / real_of_int n))"
    by (simp only: so se)
  also have "\<dots> = Inr (real_of_int (sint w) * (b - a))"
    using m2 unfolding m by (simp add: field_simps)
  finally show ?thesis .
qed

text \<open>
  Claim C5, amended. For all reals \<open>a\<close>, \<open>b\<close> and every constant \<open>c\<close> that is a float, or an int with
  \<open>2 * n * \<bar>c\<bar> < 2 ^ 63\<close>, the integral of the constant function \<open>\<lambda>x. c\<close> is exactly
  \<open>c * (b - a)\<close> with \<open>Integral_Riemann\<close> and \<open>Integral_Trapezoid2\<close> for every \<open>n \<ge> 1\<close>, with
  \<open>Integral_Trapezoid1\<close> for every \<open>n \<ge> 2\<close>, and with \<open>Integral_SimpsonRule\<close> for every even
  \<open>n \<ge> 4\<close>.
\<close>

theorem constant_function_exactness:
  "(1 \<le> n \<longrightarrow> Integral_Riemann (float_valued (\<lambda>x. c)) a b n = Inr (c * (b - a))
              \<and> Integral_Trapezoid2 (float_valued (\<lambda>x. c)) a b n = Inr (c * (b - a)))
   \<and> (2 \<le> n \<longrightarrow> Integral_Trapezoid1 (float_valued (\<lambda>x. c)) a b n = Inr (c * (b - a)))
   \<and> (4 \<le> n \<and> even n \<longrightarrow>
        Integral_SimpsonRule (float_valued (\<lambda>x. c)) a b n = Inr (c * (b - a)))
   \<and> (1 \<le> n \<and> 2 * n * \<bar>sint w\<bar> < 2 ^ 63 \<longrightarrow>
        Integral_Riemann (\<lambda>x. PyInt w) a b n = Inr (real_of_int (sint w) * (b - a))
        \<and> Integral_Trapezoid2 (\<lambda>x. PyInt w) a b n = Inr (real_of_int (sint w) * (b - a)))
   \<and> (2 \<le> n \<and> 2 * n * \<bar>sint w\<bar> < 2 ^ 63 \<longrightarrow>
        Integral_Trapezoid1 (\<lambda>x. PyInt w) a b n = Inr (real_of_int (sint w) * (b - a)))
   \<and> (4 \<le> n \<and> even n \<and> 2 * n * \<bar>sint w\<bar> < 2 ^ 63 \<longrightarrow>
        Integral_SimpsonRule (\<lambda>x. PyInt w) a b n = Inr (real_of_int (sint w) * (b - a)))"
  by (simp add: Integral_Riemann_constant Integral_Trapezoid2_constant
      Integral_Trapezoid1_constant Integral_SimpsonRule_constant
      Integral_Riemann_int_constant Integral_Trapezoid2_int_constant
      Integral_Trapezoid1_int_constant Integral_SimpsonRule_int_constant)

theorem constant_function_exactness_witness:
  "Integral_Riemann (float_valued (\<lambda>x. 3)) 0 2 4 = Inr 6
   \<and> Integral_Trapezoid2 (float_valued (\<lambda>x. 3)) 0 2 4 = Inr 6
   \<and> Integral_Trapezoid1 (float_valued (\<lambda>x. 3)) 0 2 4 = Inr 6
   \<and> Integral_SimpsonRule (float_valued (\<lambda>x. 3)) 0 2 4 = Inr 6
   \<and> Integral_Riemann (\<lambda>x. PyInt 3) 0 2 4 = Inr 6
   \<and> Integral_Trapezoid2 (\<lambda>x. PyInt 3) 0 2 4 = Inr 6
   \<and> Integral_Trapezoid1 (\<lambda>x. PyInt 3) 0 2 4 = Inr 6
   \<and> Integral_SimpsonRule (\<lambda>x. PyInt 3) 0 2 4 = Inr 6"
  using constant_function_exactness [of 4 3 0 2 3] by simp

text \<open>
  A larger int constant is outside the amended claim: the sums of the \<^verbatim>\<open>int64\<close> samples wrap
  around. With the constant \<open>2 ^ 62\<close> on \<open>[0, 2]\<close> and \<open>n = 2\<close> each of the two sums is \<open>2 ^ 63\<close>,
  stored as \<open>- (2 ^ 63)\<close>, and their sum is stored as 0.
\<close>

lemma Integral_Trapezoid2_int_constant_wraps:
  "Integral_Trapezoid2 (\<lambda>x. PyInt (2 ^ 62)) 0 2 2 = Inr 0"
  by (simp add: Integral_Trapezoid2_def float_div_def py_range_def vectorize_def to_int64_def
      py_sum_def upto.simps)

text \<open>
  Claim C5 as stated (any \<open>n > 0\<close> in any of the rules) fails for Simpson's rule with an odd
  \<open>n\<close>: with \<open>n = 5\<close> on \<open>[0, 1]\<close> the weights of the constant 1 add up to \<open>4 / 5\<close>, not to 1.
\<close>

theorem constant_function_SimpsonRule_odd_counterexample:
  "Integral_SimpsonRule (float_valued (\<lambda>x. 1)) 0 1 5 = Inr (4 / 5)
   \<and> Integral_SimpsonRule (float_valued (\<lambda>x. 1)) 0 1 5 \<noteq> Inr (1 * (1 - 0))"
  by (simp add: Integral_SimpsonRule_def float_div_def py_range_def vectorize_def float_valued_def py_sum_def
      upto.simps)

section \<open>Subdivision counts outside the precondition\<close>

lemma zero_subdivisions:
  "Integral_Riemann f a b 0 = Inl ZeroDivisionError"
  "Integral_Trapezoid1 f a b 0 = Inl ZeroDivisionError"
  "Integral_Trapezoid2 f a b 0 = Inl ZeroDivisionError"
  "Integral_SimpsonRule f a b 0 = Inl ZeroDivisionError"
  by (simp_all add: Integral_Riemann_def Integral_Trapezoid1_def Integral_Trapezoid2_def
      Integral_SimpsonRule_def float_div_def)

lemma negative_subdivisions:
  assumes "n < 0"
  shows "Integral_Riemann f a b n = Inl ValueError"
    and "Integral_Trapezoid1 f a b n = Inl ValueError"
    and "Integral_Trapezoid2 f a b n = Inl ValueError"
    and "Integral_SimpsonRule f a b n = Inl ValueError"
proof -
  have nz: "real_of_int n \<noteq> 0"
    using assms by simp
  have e: "[1 .. n] = []" "[1 .. n - 1] = []" "[0 .. n - 1] = []" "[0 .. n div 2 - 1] = []"
    using assms by simp_all
  show "Integral_Riemann f a b n = Inl ValueError"
    using nz e by (simp add: Integral_Riemann_def float_div_nonzero py_range_step1 vectorize_def)
  show "Integral_Trapezoid1 f a b n = Inl ValueError"
    using nz e by (simp add: Integral_Trapezoid1_def float_div_nonzero py_range_step1 vectorize_def)
  show "Integral_Trapezoid2 f a b n = Inl ValueError"
    using nz e by (simp add: Integral_Trapezoid2_def float_div_nonzero py_range_step1 vectorize_def)
  show "Integral_SimpsonRule f a b n = Inl ValueError"
    using nz e by (simp add: Integral_SimpsonRule_def float_div_nonzero py_range_odd vectorize_def)
qed

lemma Integral_SimpsonRule_odd_small:
  "Integral_SimpsonRule f a b 1 = Inl ValueError"
  "Integral_SimpsonRule f a b 3 = Inl ValueError"
proof -
  show "Integral_SimpsonRule f a b 1 = Inl ValueError"
    by (simp add: Integral_SimpsonRule_def float_div_def py_range_def vectorize_def)
  have r: "py_range 1 3 2 = [1]" "py_range 2 (3 - 1) 2 = []"
    by (simp_all add: py_range_def upto.simps)
  obtain arr where "vectorize f [a + real_of_int 1 * ((b - a) / real_of_int 3)] = Inr arr"
    using vectorize_singleton by blast
  moreover have "vectorize f [] = Inl ValueError"
    by (simp add: vectorize_def)
  moreover have "float_div (b - a) (real_of_int 3) = Inr ((b - a) / real_of_int 3)"
    by (simp add: float_div_def)
  ultimately show "Integral_SimpsonRule f a b 3 = Inl ValueError"
    unfolding Integral_SimpsonRule_def Let_def r by (simp only: sum.case list.map)
qed

lemma float_valued_conv: "(\<forall>x. is_float (f x)) \<Longrightarrow> f = float_valued (\<lambda>x. to_float (f x))"
proof
  fix x
  assume "\<forall>x. is_float (f x)"
  then have "is_float (f x)" ..
  then show "f x = float_valued (\<lambda>x. to_float (f x)) x"
    by (cases "f x") (simp_all add: float_valued_def)
qed

lemma Integral_SimpsonRule_odd_large:
  assumes "odd n" and "5 \<le> n" and "\<forall>x. is_float (f x)"
  shows "\<exists>v. Integral_SimpsonRule f a b n = Inr v"
proof -
  obtain v where v: "Integral_SimpsonRule (float_valued (\<lambda>x. to_float (f x))) a b n = Inr v"
    using assms(1,2) by (simp add: Integral_SimpsonRule_value)
  have "Integral_SimpsonRule f a b n
      = Integral_SimpsonRule (float_valued (\<lambda>x. to_float (f x))) a b n"
    by (rule arg_cong [where f = "\<lambda>g. Integral_SimpsonRule g a b n"])
      (rule float_valued_conv [OF assms(3)])
  with v show ?thesis
    by (simp only: exI)
qed

text \<open>
  Claim C7, amended. No rule returns a value on a non-positive subdivision count, whatever the
  integrand: with \<open>n = 0\<close> each of the four functions raises \<^verbatim>\<open>ZeroDivisionError\<close> (the
  division by \<^verbatim>\<open>float(n)\<close>), and with \<open>n < 0\<close> each raises \<^verbatim>\<open>ValueError\<close> (the abscissa list
  is empty). \<open>Integral_SimpsonRule\<close> with an odd \<open>n\<close> raises \<^verbatim>\<open>ValueError\<close> for \<open>n = 1\<close> and
  \<open>n = 3\<close>, and on a float-valued integrand it returns a value for every odd \<open>n \<ge> 5\<close>.
\<close>

theorem invalid_subdivisions:
  "(n = 0 \<longrightarrow> Integral_Riemann f a b n = Inl ZeroDivisionError
               \<and> Integral_Trapezoid1 f a b n = Inl ZeroDivisionError
               \<and> Integral_Trapezoid2 f a b n = Inl ZeroDivisionError
               \<and> Integral_SimpsonRule f a b n = Inl ZeroDivisionError)
   \<and> (n < 0 \<longrightarrow> Integral_Riemann f a b n = Inl ValueError
               \<and> Integral_Trapezoid1 f a b n = Inl ValueError
               \<and> Integral_Trapezoid2 f a b n = Inl ValueError
               \<and> Integral_SimpsonRule f a b n = Inl ValueError)
   \<and> (n = 1 \<or> n = 3 \<longrightarrow> Integral_SimpsonRule f a b n = Inl ValueError)
   \<and> (odd n \<and> 5 \<le> n \<and> (\<forall>x. is_float (f x))
        \<longrightarrow> (\<exists>v. Integral_SimpsonRule f a b n = Inr v))"
  using Integral_SimpsonRule_odd_large [of n f a b]
  by (auto simp add: zero_subdivisions negative_subdivisions Integral_SimpsonRule_odd_small)

theorem invalid_subdivisions_witness:
  "Integral_Riemann (float_valued dF_dx) 1 (3 / 2) 0 = Inl ZeroDivisionError
   \<and> Integral_Trapezoid2 (float_valued dF_dx) 1 (3 / 2) (- 2) = Inl ValueError
   \<and> Integral_SimpsonRule (float_valued dF_dx) 1 (3 / 2) 3 = Inl ValueError
   \<and> (\<exists>v. Integral_SimpsonRule (float_valued dF_dx) 1 (3 / 2) 5 = Inr v)"
  using invalid_subdivisions [of 0 "float_valued dF_dx" 1 "3 / 2"]
    invalid_subdivisions [of "- 2" "float_valued dF_dx" 1 "3 / 2"]
    invalid_subdivisions [of 3 "float_valued dF_dx" 1 "3 / 2"]
    invalid_subdivisions [of 5 "float_valued dF_dx" 1 "3 / 2"]
  by (simp add: float_valued_def)

text \<open>
  Claim C7 as stated (no exception and some value for every \<open>n \<le> 0\<close>) fails: on the notebook's
  own integrand and interval, \<open>n = 0\<close> and \<open>n = - 1\<close> both raise.
\<close>

theorem nonpositive_subdivisions_counterexample:
  "Integral_Riemann (float_valued dF_dx) 1 (3 / 2) 0 = Inl ZeroDivisionError
   \<and> Integral_SimpsonRule (float_valued dF_dx) 1 (3 / 2) (- 1) = Inl ValueError"
  by (simp add: Integral_Riemann_def Integral_SimpsonRule_def float_div_def py_range_def
      vectorize_def float_valued_def upto.simps)

section \<open>Swapping the bounds\<close>

lemma sum_reflect:
  fixes g :: "int \<Rightarrow> real"
  shows "(\<Sum>i = lo..hi. g (c - i)) = (\<Sum>j = c - hi..c - lo. g j)"
  by (rule sum.reindex_bij_witness [where i = "\<lambda>j. c - j" and j = "\<lambda>i. c - i"]) auto

lemma swapped_abscissa:
  assumes "n \<noteq> 0"
  shows "b + real_of_int i * ((a - b) / real_of_int n)
       = a + real_of_int (n - i) * ((b - a) / real_of_int n)"
  using assms by (simp add: field_simps)

lemma swapped_sum:
  fixes f :: "real \<Rightarrow> real"
  assumes "n \<noteq> 0"
  shows "(\<Sum>i = lo..hi. f (b + real_of_int i * ((a - b) / real_of_int n)))
       = (\<Sum>j = n - hi..n - lo. f (a + real_of_int j * ((b - a) / real_of_int n)))"
proof -
  let ?g = "\<lambda>j. f (a + real_of_int j * ((b - a) / real_of_int n))"
  have "(\<Sum>i = lo..hi. f (b + real_of_int i * ((a - b) / real_of_int n)))
      = (\<Sum>i = lo..hi. ?g (n - i))"
    by (rule sum.cong [OF refl]) (rule arg_cong [where f = f], rule swapped_abscissa [OF assms])
  also have "\<dots> = (\<Sum>j = n - hi..n - lo. ?g j)"
    by (rule sum_reflect [of ?g])
  finally show ?thesis .
qed

lemma swapped_sum_stride:
  fixes f :: "real \<Rightarrow> real"
  assumes "n \<noteq> 0"
  shows "(\<Sum>k = 0..hi. f (b + real_of_int (c + k * 2) * ((a - b) / real_of_int n)))
       = (\<Sum>k = 0..hi. f (a + real_of_int (n - c - hi * 2 + k * 2) * ((b - a) / real_of_int n)))"
proof -
  let ?G = "\<lambda>k. f (a + real_of_int (n - c - hi * 2 + k * 2) * ((b - a) / real_of_int n))"
  have e: "n - (c + k * 2) = n - c - hi * 2 + (hi - k) * 2" for k
    by (simp add: algebra_simps)
  have "(\<Sum>k = 0..hi. f (b + real_of_int (c + k * 2) * ((a - b) / real_of_int n)))
      = (\<Sum>k = 0..hi. f (a + real_of_int (n - (c + k * 2)) * ((b - a) / real_of_int n)))"
    by (rule sum.cong [OF refl]) (rule arg_cong [where f = f], rule swapped_abscissa [OF assms])
  also have "\<dots> = (\<Sum>k = 0..hi. ?G (hi - k))"
    by (simp only: e)
  also have "\<dots> = (\<Sum>k = hi - hi..hi - 0. ?G k)"
    by (rule sum_reflect [of ?G])
  also have "\<dots> = (\<Sum>k = 0..hi. ?G k)"
    by (simp only: diff_self diff_zero)
  finally show ?thesis .
qed

lemma neg_step: "(a - b) / real_of_int n = - ((b - a) / real_of_int n)"
  by (simp add: minus_divide_left)

lemma riemann_swap_algebra: "(p + S) * (- h) = - ((S + q) * h) + h * (q - (p::real))"
  by (simp add: algebra_simps)

lemma Integral_Riemann_swapped:
  assumes "1 \<le> n"
  shows "\<exists>v. Integral_Riemann (float_valued f) a b n = Inr v
           \<and> Integral_Riemann (float_valued f) b a n = Inr (- v + (b - a) / real_of_int n * (f b - f a))"
proof -
  let ?h = "(b - a) / real_of_int n"
  let ?g = "\<lambda>i. f (a + real_of_int i * ?h)"
  have n0: "n \<noteq> 0" and le0: "(0::int) \<le> n - 1"
    using assms by simp_all
  define S where "S = (\<Sum>i = 1..n - 1. ?g i)"
  have first: "(\<Sum>i = 0..n - 1. ?g i) = f a + S"
    using sum_split_first [OF le0, of ?g] by (simp add: S_def)
  have last: "(\<Sum>i = 1..n. ?g i) = S + f b"
    using sum_split_last [OF assms, of ?g] n0 by (simp add: S_def)
  have fwd: "Integral_Riemann (float_valued f) a b n = Inr ((S + f b) * ?h)"
    by (simp only: Integral_Riemann_value [OF assms] last)
  have "Integral_Riemann (float_valued f) b a n
      = Inr ((\<Sum>i = 1..n. f (b + real_of_int i * ((a - b) / real_of_int n)))
             * ((a - b) / real_of_int n))"
    by (rule Integral_Riemann_value [OF assms])
  also have "\<dots> = Inr ((\<Sum>j = n - n..n - 1. ?g j) * ((a - b) / real_of_int n))"
    by (simp only: swapped_sum [OF n0, where f = f and a = a and b = b and lo = 1 and hi = n])
  also have "\<dots> = Inr ((f a + S) * (- ?h))"
    by (simp only: diff_self first neg_step [of a b n])
  finally have bwd: "Integral_Riemann (float_valued f) b a n = Inr ((f a + S) * (- ?h))" .
  have "(f a + S) * (- ?h) = - ((S + f b) * ?h) + ?h * (f b - f a)"
    by (rule riemann_swap_algebra)
  with fwd bwd show ?thesis
    by simp
qed

lemma Integral_Trapezoid1_swapped:
  assumes "2 \<le> n"
  shows "\<exists>v. Integral_Trapezoid1 (float_valued f) a b n = Inr v \<and> Integral_Trapezoid1 (float_valued f) b a n = Inr (- v)"
proof -
  let ?h = "(b - a) / real_of_int n"
  let ?g = "\<lambda>i. f (a + real_of_int i * ?h)"
  have n0: "n \<noteq> 0" and lo: "n - (n - 1) = 1"
    using assms by simp_all
  define S where "S = (\<Sum>i = 1..n - 1. ?g i)"
  have fwd: "Integral_Trapezoid1 (float_valued f) a b n = Inr ((S + 0.5 * (f a + f b)) * ?h)"
    by (simp only: Integral_Trapezoid1_value [OF assms] S_def)
  have "Integral_Trapezoid1 (float_valued f) b a n
      = Inr (((\<Sum>i = 1..n - 1. f (b + real_of_int i * ((a - b) / real_of_int n)))
              + 0.5 * (f b + f a)) * ((a - b) / real_of_int n))"
    by (rule Integral_Trapezoid1_value [OF assms])
  also have "\<dots> = Inr (((\<Sum>j = n - (n - 1)..n - 1. ?g j) + 0.5 * (f b + f a))
                         * ((a - b) / real_of_int n))"
    by (simp only: swapped_sum [OF n0, where f = f and a = a and b = b and lo = 1 and hi = "n - 1"])
  also have "\<dots> = Inr ((S + 0.5 * (f b + f a)) * (- ?h))"
    by (simp only: lo S_def neg_step [of a b n])
  finally have bwd: "Integral_Trapezoid1 (float_valued f) b a n = Inr ((S + 0.5 * (f b + f a)) * (- ?h))" .
  have "(S + 0.5 * (f b + f a)) * (- ?h) = - ((S + 0.5 * (f a + f b)) * ?h)"
    by (simp add: algebra_simps)
  with fwd bwd show ?thesis
    by simp
qed

lemma Integral_Trapezoid2_swapped:
  assumes "1 \<le> n"
  shows "\<exists>v. Integral_Trapezoid2 (float_valued f) a b n = Inr v \<and> Integral_Trapezoid2 (float_valued f) b a n = Inr (- v)"
proof -
  let ?h = "(b - a) / real_of_int n"
  let ?g = "\<lambda>i. f (a + real_of_int i * ?h)"
  have n0: "n \<noteq> 0" and lo: "n - (n - 1) = 1"
    using assms by simp_all
  define L where "L = (\<Sum>i = 0..n - 1. ?g i)"
  define R where "R = (\<Sum>i = 1..n. ?g i)"
  have fwd: "Integral_Trapezoid2 (float_valued f) a b n = Inr ((L + R) * 0.5 * ?h)"
    by (simp only: Integral_Trapezoid2_value [OF assms] L_def R_def)
  have "Integral_Trapezoid2 (float_valued f) b a n
      = Inr (((\<Sum>i = 0..n - 1. f (b + real_of_int i * ((a - b) / real_of_int n)))
              + (\<Sum>i = 1..n. f (b + real_of_int i * ((a - b) / real_of_int n))))
             * 0.5 * ((a - b) / real_of_int n))"
    by (rule Integral_Trapezoid2_value [OF assms])
  also have "\<dots> = Inr (((\<Sum>j = n - (n - 1)..n - 0. ?g j) + (\<Sum>j = n - n..n - 1. ?g j))
                         * 0.5 * ((a - b) / real_of_int n))"
    by (simp only: swapped_sum [OF n0, where f = f and a = a and b = b and lo = 0 and hi = "n - 1"]
        swapped_sum [OF n0, where f = f and a = a and b = b and lo = 1 and hi = n])
  also have "\<dots> = Inr ((R + L) * 0.5 * (- ?h))"
    by (simp only: lo diff_self diff_zero L_def R_def neg_step [of a b n])
  finally have bwd: "Integral_Trapezoid2 (float_valued f) b a n = Inr ((R + L) * 0.5 * (- ?h))" .
  have "(R + L) * 0.5 * (- ?h) = - ((L + R) * 0.5 * ?h)"
    by (simp add: algebra_simps)
  with fwd bwd show ?thesis
    by simp
qed

lemma Integral_SimpsonRule_swapped:
  assumes "4 \<le> n" and "even n"
  shows "\<exists>v. Integral_SimpsonRule (float_valued f) a b n = Inr v \<and> Integral_SimpsonRule (float_valued f) b a n = Inr (- v)"
proof -
  let ?h = "(b - a) / real_of_int n"
  have n0: "n \<noteq> 0" and v: "4 \<le> n \<or> odd n \<and> 5 \<le> n"
    using assms by simp_all
  have o: "n - 1 - (n div 2 - 1) * 2 = 1" and e: "n - 2 - (n div 2 - 2) * 2 = 2"
    using assms(2) by presburger+
  define So where "So = (\<Sum>k = 0..n div 2 - 1. f (a + real_of_int (1 + k * 2) * ?h))"
  define Se where "Se = (\<Sum>k = 0..n div 2 - 2. f (a + real_of_int (2 + k * 2) * ?h))"
  have fwd: "Integral_SimpsonRule (float_valued f) a b n
      = Inr ((4 / 3 * So + 2 / 3 * Se + 1 / 3 * f a + 1 / 3 * f b) * ?h)"
    by (simp only: Integral_SimpsonRule_value [OF v] So_def Se_def)
  have "Integral_SimpsonRule (float_valued f) b a n
      = Inr ((4 / 3 * (\<Sum>k = 0..n div 2 - 1.
                         f (b + real_of_int (1 + k * 2) * ((a - b) / real_of_int n)))
              + 2 / 3 * (\<Sum>k = 0..n div 2 - 2.
                           f (b + real_of_int (2 + k * 2) * ((a - b) / real_of_int n)))
              + 1 / 3 * f b + 1 / 3 * f a) * ((a - b) / real_of_int n))"
    by (rule Integral_SimpsonRule_value [OF v])
  also have "\<dots> = Inr ((4 / 3 * (\<Sum>k = 0..n div 2 - 1.
                         f (a + real_of_int (n - 1 - (n div 2 - 1) * 2 + k * 2) * ?h))
              + 2 / 3 * (\<Sum>k = 0..n div 2 - 2.
                           f (a + real_of_int (n - 2 - (n div 2 - 2) * 2 + k * 2) * ?h))
              + 1 / 3 * f b + 1 / 3 * f a) * ((a - b) / real_of_int n))"
    by (simp only:
        swapped_sum_stride [OF n0, where f = f and a = a and b = b and c = 1 and hi = "n div 2 - 1"]
        swapped_sum_stride [OF n0, where f = f and a = a and b = b and c = 2 and hi = "n div 2 - 2"])
  also have "\<dots> = Inr ((4 / 3 * So + 2 / 3 * Se + 1 / 3 * f b + 1 / 3 * f a) * (- ?h))"
    by (simp only: o e So_def Se_def neg_step [of a b n])
  finally have bwd: "Integral_SimpsonRule (float_valued f) b a n
      = Inr ((4 / 3 * So + 2 / 3 * Se + 1 / 3 * f b + 1 / 3 * f a) * (- ?h))" .
  have "(4 / 3 * So + 2 / 3 * Se + 1 / 3 * f b + 1 / 3 * f a) * (- ?h)
      = - ((4 / 3 * So + 2 / 3 * Se + 1 / 3 * f a + 1 / 3 * f b) * ?h)"
    by (simp add: algebra_simps)
  with fwd bwd show ?thesis
    by simp
qed

text \<open>
  Claim C8, amended. On an integrand \<open>f\<close> that returns floats, swapping the bounds negates the
  result of the trapezoidal rule
  (\<open>Integral_Trapezoid2\<close> for every \<open>n \<ge> 1\<close>, \<open>Integral_Trapezoid1\<close> for every \<open>n \<ge> 2\<close>) and of
  Simpson's rule (every even \<open>n \<ge> 4\<close>). It does not negate the Riemann sum: the right endpoints
  of the reversed partition are the left endpoints of the original one, so for every \<open>n \<ge> 1\<close>
  \<open>Integral_Riemann f b a n\<close> is the negated result plus \<open>Dx * (f b - f a)\<close>, with
  \<open>Dx = (b - a) / n\<close>. All of this holds for all reals \<open>a\<close>, \<open>b\<close>, also for \<open>a < b\<close>.
\<close>

theorem swapped_bounds:
  "(1 \<le> n \<longrightarrow> (\<exists>v. Integral_Riemann (float_valued f) a b n = Inr v
        \<and> Integral_Riemann (float_valued f) b a n = Inr (- v + (b - a) / real_of_int n * (f b - f a))))
   \<and> (1 \<le> n \<longrightarrow> (\<exists>v. Integral_Trapezoid2 (float_valued f) a b n = Inr v \<and> Integral_Trapezoid2 (float_valued f) b a n = Inr (- v)))
   \<and> (2 \<le> n \<longrightarrow> (\<exists>v. Integral_Trapezoid1 (float_valued f) a b n = Inr v \<and> Integral_Trapezoid1 (float_valued f) b a n = Inr (- v)))
   \<and> (4 \<le> n \<and> even n \<longrightarrow>
        (\<exists>v. Integral_SimpsonRule (float_valued f) a b n = Inr v \<and> Integral_SimpsonRule (float_valued f) b a n = Inr (- v)))"
  using Integral_Riemann_swapped [of n f a b] Integral_Trapezoid2_swapped [of n f a b]
    Integral_Trapezoid1_swapped [of n f a b] Integral_SimpsonRule_swapped [of n f a b]
  by blast

theorem swapped_bounds_witness:
  "(\<exists>v. Integral_Riemann (float_valued (\<lambda>x. x * x)) 0 1 4 = Inr v
        \<and> Integral_Riemann (float_valued (\<lambda>x. x * x)) 1 0 4 = Inr (- v + 1 / 4))
   \<and> (\<exists>v. Integral_Trapezoid2 (float_valued (\<lambda>x. x * x)) 0 1 4 = Inr v
        \<and> Integral_Trapezoid2 (float_valued (\<lambda>x. x * x)) 1 0 4 = Inr (- v))
   \<and> (\<exists>v. Integral_Trapezoid1 (float_valued (\<lambda>x. x * x)) 0 1 4 = Inr v
        \<and> Integral_Trapezoid1 (float_valued (\<lambda>x. x * x)) 1 0 4 = Inr (- v))
   \<and> (\<exists>v. Integral_SimpsonRule (float_valued (\<lambda>x. x * x)) 0 1 4 = Inr v
        \<and> Integral_SimpsonRule (float_valued (\<lambda>x. x * x)) 1 0 4 = Inr (- v))"
  using swapped_bounds [of 4 "\<lambda>x. x * x" 0 1] by simp

text \<open>
  An integrand that returns an int at some points is outside the amended claim: swapping the
  bounds changes the first sample, and with it the element type of the sample array. With
  \<^verbatim>\<open>f = lambda x: 0 if x < 0 else x\<close> on \<open>[- 1, 1]\<close> and \<open>n = 4\<close> the forward call starts on
  an int and truncates, the swapped call starts on a float and does not.
\<close>

lemma Integral_Trapezoid2_swapped_int_first:
  "Integral_Trapezoid2 (\<lambda>x. if x < 0 then PyInt 0 else PyFloat x) (- 1) 1 4 = Inr (1 / 4)
   \<and> Integral_Trapezoid2 (\<lambda>x. if x < 0 then PyInt 0 else PyFloat x) 1 (- 1) 4 = Inr (- 1 / 2)"
  by (simp add: Integral_Trapezoid2_def float_div_def py_range_def vectorize_def to_int64_def
      trunc_int_def py_sum_def upto.simps)

text \<open>
  Claim C8 as stated fails for the Riemann sum: with \<open>f x = x\<close> and \<open>n = 1\<close> the sum over \<open>[0, 1]\<close>
  is \<open>f 1 = 1\<close>, and with the bounds swapped it is \<open>- f 0 = 0\<close>, not \<open>- 1\<close>.
\<close>

theorem swapped_bounds_counterexample:
  "Integral_Riemann (float_valued (\<lambda>x. x)) 0 1 1 = Inr 1 \<and> Integral_Riemann (float_valued (\<lambda>x. x)) 1 0 1 = Inr 0"
  by (simp add: Integral_Riemann_def float_div_def py_range_def vectorize_def float_valued_def py_sum_def upto.simps)

section \<open>The numeric differentiator\<close>

lemma derivative_centered: "derivative F x h = (F (x + h) - F (x - h)) / (2 * h)"
  by (simp add: derivative_def field_simps)

text \<open>
  Claim C9, amended. \<open>dF_dx x\<close> is the centered finite difference of \<open>F_sin\<close> with the step
  \<open>1 / 10000\<close>; the library routine it calls returns the centered difference
  \<open>(F (x + h) - F (x - h)) / (2 * h)\<close> for every function \<open>F\<close> and every step \<open>h \<noteq> 0\<close>; and the
  vectorised form applied to a non-empty sequence returns a sequence of the same length whose
  \<open>i\<close>-th element is \<open>dF_dx\<close> of the \<open>i\<close>-th input.
\<close>

theorem dF_dx_centered_difference:
  "dF_dx x = (F_sin (x + 1 / 10000) - F_sin (x - 1 / 10000)) / (2 * (1 / 10000))
   \<and> (h \<noteq> 0 \<longrightarrow> derivative F x h = (F (x + h) - F (x - h)) / (2 * h))
   \<and> (xs \<noteq> [] \<longrightarrow> (\<exists>ys. Vect_dF_dx xs = Inr (Float64Array ys) \<and> length ys = length xs
                          \<and> (\<forall>i<length xs. ys ! i = dF_dx (xs ! i))))"
  by (simp add: dF_dx_def derivative_centered Vect_dF_dx_def vectorize_float_valued)

theorem dF_dx_centered_difference_witness:
  "derivative (\<lambda>x. x * x) 3 (1 / 2) = 6
   \<and> Vect_dF_dx [1 / 10, 2 / 5] = Inr (Float64Array [dF_dx (1 / 10), dF_dx (2 / 5)])"
  using dF_dx_centered_difference
    [where x = 3 and h = "1 / 2" and F = "\<lambda>x. x * x" and xs = "[1 / 10, 2 / 5]"]
  by (auto simp add: less_Suc_eq nth_Cons' list_eq_iff_nth_eq)

text \<open>
  Claim C9 as stated (every sequence) fails on the empty sequence, where the vectorised call
  raises instead of returning an empty sequence.
\<close>

theorem Vect_dF_dx_empty_counterexample:
  "Vect_dF_dx [] = Inl ValueError"
  by (simp add: Vect_dF_dx_def vectorize_def float_valued_def)

section \<open>Simpson's rule on cubic polynomials\<close>

text \<open>
  On each pair of subintervals Simpson's weights integrate a cubic exactly; the composite rule
  is the sum of the panels, which telescopes over the antiderivative.
\<close>

lemma simpson_panel_cubic:
  fixes x h :: real
  shows "h / 3 * ((c0 + c1 * x + c2 * x ^ 2 + c3 * x ^ 3)
                  + 4 * (c0 + c1 * (x + h) + c2 * (x + h) ^ 2 + c3 * (x + h) ^ 3)
                  + (c0 + c1 * (x + 2 * h) + c2 * (x + 2 * h) ^ 2 + c3 * (x + 2 * h) ^ 3))
       = (c0 * (x + 2 * h) + c1 * (x + 2 * h) ^ 2 / 2 + c2 * (x + 2 * h) ^ 3 / 3
            + c3 * (x + 2 * h) ^ 4 / 4)
         - (c0 * x + c1 * x ^ 2 / 2 + c2 * x ^ 3 / 3 + c3 * x ^ 4 / 4)"
  by (simp add: field_simps power2_eq_square power3_eq_cube power4_eq_xxxx)

lemma simpson_regroup:
  fixes g :: "int \<Rightarrow> real"
  assumes "1 \<le> m"
  shows "4 / 3 * (\<Sum>k = 0..m - 1. g (1 + k * 2)) + 2 / 3 * (\<Sum>k = 0..m - 2. g (2 + k * 2))
           + 1 / 3 * g 0 + 1 / 3 * g (2 * m)
       = (\<Sum>k = 0..m - 1. (g (k * 2) + 4 * g (1 + k * 2) + g (2 + k * 2)) / 3)"
  using assms
proof (induction m rule: int_ge_induct)
  case base
  show ?case by simp
next
  case (step m)
  have le: "(0::int) \<le> m" "(0::int) \<le> m - 1"
    using step.hyps by simp_all
  have s1: "(\<Sum>k = 0..m + 1 - 1. g (1 + k * 2)) = (\<Sum>k = 0..m - 1. g (1 + k * 2)) + g (1 + m * 2)"
    using sum_split_last [OF le(1), of "\<lambda>k. g (1 + k * 2)"] by simp
  have s2: "(\<Sum>k = 0..m + 1 - 2. g (2 + k * 2)) = (\<Sum>k = 0..m - 2. g (2 + k * 2)) + g (2 * m)"
    using sum_split_last [OF le(2), of "\<lambda>k. g (2 + k * 2)"] by (simp add: algebra_simps)
  have s3: "(\<Sum>k = 0..m + 1 - 1. (g (k * 2) + 4 * g (1 + k * 2) + g (2 + k * 2)) / 3)
      = (\<Sum>k = 0..m - 1. (g (k * 2) + 4 * g (1 + k * 2) + g (2 + k * 2)) / 3)
        + (g (m * 2) + 4 * g (1 + m * 2) + g (2 + m * 2)) / 3"
    using sum_split_last [OF le(1), of "\<lambda>k. (g (k * 2) + 4 * g (1 + k * 2) + g (2 + k * 2)) / 3"]
    by simp
  have e: "2 * (m + 1) = 2 + m * 2" "2 * m = m * 2"
    by simp_all
  show ?case
    unfolding s1 s2 s3 step.IH [symmetric] e by (simp add: field_simps)
qed

lemma sum_telescope_pairs:
  fixes G :: "int \<Rightarrow> real"
  assumes "0 \<le> m"
  shows "(\<Sum>k = 0..m - 1. G (2 + k * 2) - G (k * 2)) = G (2 * m) - G 0"
  using assms
proof (induction m rule: int_ge_induct)
  case base
  show ?case by simp
next
  case (step m)
  have "(\<Sum>k = 0..m + 1 - 1. G (2 + k * 2) - G (k * 2))
      = (\<Sum>k = 0..m - 1. G (2 + k * 2) - G (k * 2)) + (G (2 + m * 2) - G (m * 2))"
    using sum_split_last [OF step.hyps, of "\<lambda>k. G (2 + k * 2) - G (k * 2)"] by simp
  then show ?case
    by (simp add: step.IH algebra_simps)
qed

lemma third_scale: "x / 3 * h = h / 3 * (x::real)"
  by simp

lemma Integral_SimpsonRule_cubic_exact:
  assumes "4 \<le> n" and "even n"
  shows "Integral_SimpsonRule (float_valued (\<lambda>x. c0 + c1 * x + c2 * x ^ 2 + c3 * x ^ 3)) a b n
       = Inr ((c0 * b + c1 * b ^ 2 / 2 + c2 * b ^ 3 / 3 + c3 * b ^ 4 / 4)
              - (c0 * a + c1 * a ^ 2 / 2 + c2 * a ^ 3 / 3 + c3 * a ^ 4 / 4))"
proof -
  define p where "p = (\<lambda>x::real. c0 + c1 * x + c2 * x ^ 2 + c3 * x ^ 3)"
  define P where "P = (\<lambda>x::real. c0 * x + c1 * x ^ 2 / 2 + c2 * x ^ 3 / 3 + c3 * x ^ 4 / 4)"
  define h where "h = (b - a) / real_of_int n"
  define X where "X = (\<lambda>i::int. a + real_of_int i * h)"
  define m where "m = n div 2"
  have n: "n = 2 * m"
    using assms(2) by (simp add: m_def)
  have m2: "2 \<le> m" and m1: "1 \<le> m" and m0: "0 \<le> m"
    using assms(1) n by simp_all
  have n0: "real_of_int n \<noteq> 0"
    using assms(1) by simp
  have v: "4 \<le> n \<or> odd n \<and> 5 \<le> n"
    using assms by simp
  have panel: "h / 3 * (p (X (k * 2)) + 4 * p (X (1 + k * 2)) + p (X (2 + k * 2)))
             = P (X (2 + k * 2)) - P (X (k * 2))" for k
  proof -
    have x1: "X (1 + k * 2) = X (k * 2) + h" and x2: "X (2 + k * 2) = X (k * 2) + 2 * h"
      by (simp_all add: X_def algebra_simps)
    show ?thesis
      unfolding x1 x2 p_def P_def by (rule simpson_panel_cubic)
  qed
  have ends: "X 0 = a" "X (2 * m) = b"
    using n0 by (simp_all add: X_def h_def n [symmetric])
  have "Integral_SimpsonRule (float_valued p) a b n
      = Inr ((4 / 3 * (\<Sum>k = 0..m - 1. p (X (1 + k * 2)))
              + 2 / 3 * (\<Sum>k = 0..m - 2. p (X (2 + k * 2)))
              + 1 / 3 * p (X 0) + 1 / 3 * p (X (2 * m))) * h)"
    by (simp only: Integral_SimpsonRule_value [OF v] X_def h_def m_def [symmetric] ends [unfolded X_def h_def])
  also have "\<dots> = Inr ((\<Sum>k = 0..m - 1. (p (X (k * 2)) + 4 * p (X (1 + k * 2)) + p (X (2 + k * 2))) / 3) * h)"
    by (simp only: simpson_regroup [OF m1, of "\<lambda>i. p (X i)"])
  also have "\<dots> = Inr (\<Sum>k = 0..m - 1. h / 3 * (p (X (k * 2)) + 4 * p (X (1 + k * 2)) + p (X (2 + k * 2))))"
    by (simp only: sum_distrib_right third_scale)
  also have "\<dots> = Inr (\<Sum>k = 0..m - 1. P (X (2 + k * 2)) - P (X (k * 2)))"
    by (simp only: panel)
  also have "\<dots> = Inr (P (X (2 * m)) - P (X 0))"
    by (simp only: sum_telescope_pairs [OF m0, of "\<lambda>i. P (X i)"])
  also have "\<dots> = Inr (P b - P a)"
    by (simp only: ends)
  finally show ?thesis
    by (simp only: p_def P_def)
qed

lemma cubic_antiderivative:
  fixes P :: "real \<Rightarrow> real"
  assumes "\<And>x. (P has_real_derivative (c0 + c1 * x + c2 * x ^ 2 + c3 * x ^ 3)) (at x)"
  shows "P b - P a = (c0 * b + c1 * b ^ 2 / 2 + c2 * b ^ 3 / 3 + c3 * b ^ 4 / 4)
                   - (c0 * a + c1 * a ^ 2 / 2 + c2 * a ^ 3 / 3 + c3 * a ^ 4 / 4)"
proof -
  define Q where "Q = (\<lambda>x::real. c0 * x + c1 * x ^ 2 / 2 + c2 * x ^ 3 / 3 + c3 * x ^ 4 / 4)"
  have dQ: "(Q has_real_derivative (c0 + c1 * x + c2 * x ^ 2 + c3 * x ^ 3)) (at x)" for x
    unfolding Q_def by (auto intro!: derivative_eq_intros simp add: field_simps power2_eq_square power3_eq_cube)
  have "((\<lambda>x. P x - Q x) has_real_derivative 0) (at x)" for x
    using DERIV_diff [OF assms [of x] dQ [of x]] by simp
  then have "P b - Q b = P a - Q a"
    using DERIV_isconst_all [of "\<lambda>x. P x - Q x" b a] by simp
  then show ?thesis
    by (simp add: Q_def)
qed

lemma Integral_SimpsonRule_cubic_antiderivative:
  fixes P :: "real \<Rightarrow> real"
  assumes "4 \<le> n" and "even n"
    and "\<And>x. (P has_real_derivative (c0 + c1 * x + c2 * x ^ 2 + c3 * x ^ 3)) (at x)"
  shows "Integral_SimpsonRule (float_valued (\<lambda>x. c0 + c1 * x + c2 * x ^ 2 + c3 * x ^ 3)) a b n = Inr (P b - P a)"
  by (simp only: Integral_SimpsonRule_cubic_exact [OF assms(1,2)] cubic_antiderivative [OF assms(3)])

text \<open>
  Claim C6. For every polynomial \<open>p\<close> of degree at most 3 and every even \<open>n \<ge> 2\<close>,
  \<open>Integral_SimpsonRule p a b n\<close> is to return the integral of \<open>p\<close> over \<open>[a, b]\<close>, that is
  \<open>P b - P a\<close> for an antiderivative \<open>P\<close>. This holds for every even \<open>n \<ge> 4\<close>
  (\<open>Integral_SimpsonRule_cubic_antiderivative\<close>). At \<open>n = 2\<close> the call raises for every integrand,
  a cubic polynomial included: no value is returned.
\<close>

theorem Integral_SimpsonRule_cubic_two_intervals:
  "Integral_SimpsonRule (float_valued (\<lambda>x. c0 + c1 * x + c2 * x ^ 2 + c3 * x ^ 3)) a b 2 = Inl ValueError"
  by (simp add: Integral_SimpsonRule_def float_div_def py_range_def vectorize_def float_valued_def upto.simps)

end
